theory Spec2Isabelle
  imports Main "HOL-Library.AList"
begin

section \<open>Incremental ticket synchronisation (examples/confluence\_getting\_jira.py)\<close>

text \<open>
  A shallow embedding of the class \<open>JiraIncrementalSync\<close>: text cleaning
  (\<open>clean_text\<close>), loading the stored snapshot (\<open>load_existing_data\<close>), extracting a
  record from a fetched issue (\<open>extract_issue_data\<close>), change detection
  (\<open>is_issue_modified\<close> with its inner \<open>safe_compare\<close>) and the merge loop
  (\<open>sync_jira_issues\<close>).

  A Python \<open>str\<close> is a \<open>string\<close> whose characters are code points below 256. A value
  that may be \<open>None\<close> is an \<open>option\<close>. A raised exception is the \<open>Inl\<close> side of a sum.
\<close>

subsection \<open>Text\<close>

text \<open>
  The code points below 256 that \<open>str.strip()\<close> removes: tab, line feed, vertical tab,
  form feed, carriage return, the four separators 0x1C to 0x1F, space, NEL (0x85) and
  the no-break space (0xA0).
\<close>

definition whitespace :: "char list" where
  "whitespace = [CHR 0x09, CHR 0x0A, CHR 0x0B, CHR 0x0C, CHR 0x0D, CHR 0x1C, CHR 0x1D,
                 CHR 0x1E, CHR 0x1F, CHR 0x20, CHR 0x85, CHR 0xA0]"

definition isspace :: "char \<Rightarrow> bool" where
  "isspace c = (c \<in> set whitespace)"

text \<open>\<open>text.strip()\<close>: drop the leading and the trailing whitespace.\<close>

definition strip :: "string \<Rightarrow> string" where
  "strip s = rev (dropWhile isspace (rev (dropWhile isspace s)))"

text \<open>\<open>.replace('\r\n', '\n')\<close>: every occurrence, scanning from the left.\<close>

fun replace_crlf :: "string \<Rightarrow> string" where
  "replace_crlf [] = []"
| "replace_crlf [c] = [c]"
| "replace_crlf (c # d # s) =
     (if c = CHR 0x0D \<and> d = CHR 0x0A then CHR 0x0A # replace_crlf s
      else c # replace_crlf (d # s))"

text \<open>\<open>.replace('\t', ' ')\<close>.\<close>

definition replace_tab :: "string \<Rightarrow> string" where
  "replace_tab s = map (\<lambda>c. if c = CHR 0x09 then CHR 0x20 else c) s"

text \<open>
  \<open>clean_text\<close> (lines 31 to 40). \<open>if text:\<close> is false for \<open>None\<close> and for the empty
  string.
\<close>

definition clean_text :: "string option \<Rightarrow> string" where
  "clean_text text =
     (case text of
        None \<Rightarrow> ''No content''
      | Some s \<Rightarrow> if s = [] then ''No content''
                  else replace_tab (replace_crlf (strip s)))"

subsection \<open>Data\<close>

text \<open>
  A stored comment and a stored issue are JSON objects read back from the output file.
  A field is \<open>None\<close> when the object lacks it. For \<open>summary\<close>, \<open>description\<close>,
  \<open>resolution\<close>, \<open>root_cause\<close>, \<open>message\<close> and \<open>body\<close> a JSON \<open>null\<close> behaves
  the same as a missing field, so \<open>None\<close> stands for both. For \<open>key\<close> and \<open>comments\<close>
  it does not: a \<open>null\<close> key is filed under \<open>None\<close> without an error, and on
  \<open>null\<close> comments the comprehension of lines 161 to 164 raises \<open>TypeError\<close>. There
  \<open>None\<close> stands for a missing field only, and a \<open>null\<close> is outside the model, as is any
  value that is not text (for \<open>comments\<close>, not a list of objects). On such a file the
  code can raise where the model returns, so the model says nothing on whether a run
  over it returns.
\<close>

record stored_comment =
  message :: "string option"
  author :: "string option"
  body :: "string option"

record stored_issue =
  key :: "string option"
  summary :: "string option"
  reporter :: "string option"
  description :: "string option"
  resolution :: "string option"
  root_cause :: "string option"
  created_at :: "string option"
  comments :: "stored_comment list option"

text \<open>
  A fetched issue is an object of the Jira client library. Of a resolution object the
  code reads \<open>.name\<close> (in \<open>extract_issue_data\<close>) and \<open>str(...)\<close> (in \<open>safe_compare\<close>);
  what \<open>str\<close> gives is decided by the client library, so it is a field of its own here.
  \<open>fields_comment\<close> is \<open>None\<close> when \<open>fields\<close> has no attribute \<open>comment\<close>, and else
  holds \<open>fields.comment.comments\<close>. \<open>fields_customfield_12602\<close> and \<open>fields_created\<close>
  are \<open>None\<close> when the attribute is missing or \<open>None\<close>.
  \<open>fields_reporter_displayName\<close> is \<open>None\<close> when the issue has no reporter.
\<close>

record jira_resolution =
  res_name :: string
  res_str :: string

record jira_comment =
  comment_author_displayName :: string
  comment_body :: "string option"

record jira_issue =
  issue_key :: string
  fields_summary :: "string option"
  fields_reporter_displayName :: "string option"
  fields_description :: "string option"
  fields_resolution :: "jira_resolution option"
  fields_customfield_12602 :: "string option"
  fields_created :: "string option"
  fields_comment :: "jira_comment list option"

text \<open>The fetched values that \<open>safe_compare\<close> receives: a string or a resolution object.\<close>

datatype new_value = StrValue string | ResolutionValue jira_resolution

fun py_str :: "new_value \<Rightarrow> string" where
  "py_str (StrValue s) = s"
| "py_str (ResolutionValue r) = res_str r"

datatype error = KeyError

datatype change_event = Added string | Updated string

record sync_state =
  updated_issues :: "stored_issue list"
  change_log :: "change_event list"

subsection \<open>Loading the stored snapshot\<close>

text \<open>
  The dictionary comprehension of line 57, one record at a time: \<open>issue['key']\<close> raises
  \<open>KeyError\<close> on a record without the field; a key seen before keeps its place in the
  dictionary and takes the later record.
\<close>

fun dict_by_key ::
  "stored_issue list \<Rightarrow> (string \<times> stored_issue) list \<Rightarrow> error + (string \<times> stored_issue) list"
where
  "dict_by_key [] d = Inr d"
| "dict_by_key (issue # rest) d =
     (case key issue of
        None \<Rightarrow> Inl KeyError
      | Some k \<Rightarrow> dict_by_key rest (AList.update k issue d))"

text \<open>
  \<open>load_existing_data\<close> (lines 44 to 57). The argument is the parsed content of the
  output file, \<open>None\<close> when the file does not exist.
\<close>

definition load_existing_data ::
  "stored_issue list option \<Rightarrow> error + (string \<times> stored_issue) list"
where
  "load_existing_data output_file =
     (case output_file of
        None \<Rightarrow> Inr []
      | Some existing_data \<Rightarrow> dict_by_key existing_data [])"

subsection \<open>Extraction\<close>

text \<open>
  \<open>get_custom_field_value\<close> (lines 59 to 71), applied to the value of the attribute
  (\<open>None\<close> also when \<open>getattr\<close> raises).
\<close>

definition get_custom_field_value :: "string option \<Rightarrow> string option" where
  "get_custom_field_value v =
     (case v of
        None \<Rightarrow> None
      | Some s \<Rightarrow> if s = [] then None else Some (clean_text (Some s)))"

definition extract_comment :: "jira_comment \<Rightarrow> stored_comment" where
  "extract_comment c =
     \<lparr>message = None,
      author = Some (comment_author_displayName c),
      body = Some (clean_text (comment_body c))\<rparr>"

text \<open>\<open>extract_issue_data\<close> (lines 73 to 103).\<close>

definition extract_issue_data :: "jira_issue \<Rightarrow> stored_issue" where
  "extract_issue_data singleIssue =
     \<lparr>key = Some (issue_key singleIssue),
      summary = Some (clean_text (fields_summary singleIssue)),
      reporter = Some (case fields_reporter_displayName singleIssue of
                         None \<Rightarrow> ''Unknown Reporter'' | Some r \<Rightarrow> r),
      description = Some (clean_text (fields_description singleIssue)),
      resolution = map_option res_name (fields_resolution singleIssue),
      root_cause = get_custom_field_value (fields_customfield_12602 singleIssue),
      created_at = get_custom_field_value (fields_created singleIssue),
      comments = Some (case fields_comment singleIssue of
                         None \<Rightarrow> [] | Some cs \<Rightarrow> map extract_comment cs)\<rparr>"

subsection \<open>Change detection\<close>

text \<open>
  \<open>safe_compare\<close> (lines 113 to 138). The test of line 122,
  \<open>isinstance(new_value, type)\<close>, holds for a class only, never for a string or a
  resolution object, so line 123 is never reached and has no branch here.
\<close>

definition safe_compare :: "string option \<Rightarrow> new_value option \<Rightarrow> bool" where
  "safe_compare existing_value new_value =
     (if existing_value = None \<and> new_value = None then False
      else if existing_value = Some ''No root cause provided'' \<and> new_value = None then False
      else if existing_value = Some ''Unresolved'' \<and> new_value = None then False
      else
        let new_str = map_option (\<lambda>v. clean_text (Some (py_str v))) new_value;
            existing_str = map_option (\<lambda>v. clean_text (Some v)) existing_value
        in if (existing_str = Some ''No content'' \<and> new_str = None)
              \<or> (existing_str = None \<and> new_str = Some ''No content'')
           then False
           else existing_str \<noteq> new_str)"

text \<open>The test of line 163 on one stored comment.\<close>

definition is_placeholder :: "stored_comment \<Rightarrow> bool" where
  "is_placeholder comment = (message comment = Some ''No comments found for this issue.'')"

text \<open>\<open>old_comment.get('body', '')\<close>.\<close>

definition get_body :: "stored_comment \<Rightarrow> string" where
  "get_body old_comment = (case body old_comment of None \<Rightarrow> [] | Some b \<Rightarrow> b)"

text \<open>
  The comment part of \<open>is_issue_modified\<close> (lines 160 to 180), from the stored and the
  fetched comment lists of lines 157 and 158.
\<close>

definition comments_modified :: "stored_comment list \<Rightarrow> jira_comment list \<Rightarrow> bool" where
  "comments_modified stored_comments new_comments =
     (let existing_comments = filter (\<lambda>comment. \<not> is_placeholder comment) stored_comments
      in if length existing_comments \<noteq> length new_comments
            \<and> (length existing_comments > 0 \<or> length new_comments > 0)
         then True
         else if new_comments \<noteq> []
              \<and> list_ex (\<lambda>(old_comment, new_comment).
                    clean_text (Some (get_body old_comment)) \<noteq> clean_text (comment_body new_comment))
                  (zip existing_comments new_comments)
         then True
         else False)"

text \<open>The comparison map of lines 141 to 146, paired with the stored values, in order.\<close>

definition comparison_map ::
  "stored_issue \<Rightarrow> jira_issue \<Rightarrow> (string option \<times> new_value option) list"
where
  "comparison_map existing_issue new_issue =
     [(summary existing_issue, map_option StrValue (fields_summary new_issue)),
      (description existing_issue, map_option StrValue (fields_description new_issue)),
      (resolution existing_issue, map_option ResolutionValue (fields_resolution new_issue)),
      (root_cause existing_issue, map_option StrValue (fields_customfield_12602 new_issue))]"

text \<open>\<open>is_issue_modified\<close> (lines 105 to 180).\<close>

definition is_issue_modified :: "stored_issue \<Rightarrow> jira_issue \<Rightarrow> bool" where
  "is_issue_modified existing_issue new_issue =
     (if list_ex (\<lambda>(existing_value, new_value). safe_compare existing_value new_value)
           (comparison_map existing_issue new_issue)
      then True
      else comments_modified
             (case comments existing_issue of None \<Rightarrow> [] | Some cs \<Rightarrow> cs)
             (case fields_comment new_issue of None \<Rightarrow> [] | Some cs \<Rightarrow> cs))"

subsection \<open>The merge loop\<close>

text \<open>
  The list comprehension of lines 215 to 217: \<open>issue['key']\<close> raises \<open>KeyError\<close> on a
  record without the field.
\<close>

fun remove_key :: "string \<Rightarrow> stored_issue list \<Rightarrow> error + stored_issue list" where
  "remove_key k [] = Inr []"
| "remove_key k (issue # rest) =
     (case key issue of
        None \<Rightarrow> Inl KeyError
      | Some k' \<Rightarrow>
          (case remove_key k rest of
             Inl e \<Rightarrow> Inl e
           | Inr r \<Rightarrow> Inr (if k' \<noteq> k then issue # r else r)))"

text \<open>
  The body of the inner loop (lines 208 to 224). \<open>existing_issues\<close> is the dictionary
  loaded at the start; the loop never changes it. The two \<open>print\<close> calls of lines 219
  and 224 are the change log.
\<close>

definition process_issue ::
  "(string \<times> stored_issue) list \<Rightarrow> jira_issue \<Rightarrow> sync_state \<Rightarrow> error + sync_state"
where
  "process_issue existing_issues singleIssue st =
     (let issue_data = extract_issue_data singleIssue in
      case map_of existing_issues (issue_key singleIssue) of
        Some existing_issue \<Rightarrow>
          if is_issue_modified existing_issue singleIssue
          then (case remove_key (issue_key singleIssue) (updated_issues st) of
                  Inl e \<Rightarrow> Inl e
                | Inr r \<Rightarrow> Inr \<lparr>updated_issues = r @ [issue_data],
                              change_log = change_log st @ [Updated (issue_key singleIssue)]\<rparr>)
          else Inr st
      | None \<Rightarrow>
          Inr \<lparr>updated_issues = updated_issues st @ [issue_data],
               change_log = change_log st @ [Added (issue_key singleIssue)]\<rparr>)"

fun process_issues ::
  "(string \<times> stored_issue) list \<Rightarrow> jira_issue list \<Rightarrow> sync_state \<Rightarrow> error + sync_state"
where
  "process_issues existing_issues [] st = Inr st"
| "process_issues existing_issues (singleIssue # rest) st =
     (case process_issue existing_issues singleIssue st of
        Inl e \<Rightarrow> Inl e
      | Inr st' \<Rightarrow> process_issues existing_issues rest st')"

text \<open>
  \<open>sync_jira_issues\<close> (lines 182 to 230). \<open>batches\<close> holds what \<open>search_issues\<close>
  returns for each page, in the order of the pages; the issues are processed in that
  order. The result is the list written to the output file and the change log.
\<close>

definition sync_jira_issues ::
  "stored_issue list option \<Rightarrow> jira_issue list list \<Rightarrow> error + sync_state"
where
  "sync_jira_issues output_file batches =
     (case load_existing_data output_file of
        Inl e \<Rightarrow> Inl e
      | Inr existing_issues \<Rightarrow>
          process_issues existing_issues (concat batches)
            \<lparr>updated_issues = map snd existing_issues, change_log = []\<rparr>)"

subsection \<open>Example data\<close>

text \<open>A fetched issue with one comment, and the record extracted from it.\<close>

definition example_issue :: jira_issue where
  "example_issue =
     \<lparr>issue_key = ''PROJ-1'',
      fields_summary = Some ''Disk full'',
      fields_reporter_displayName = Some ''Ann'',
      fields_description = Some ''The disk is full'',
      fields_resolution = None,
      fields_customfield_12602 = None,
      fields_created = Some ''2024-01-01'',
      fields_comment = Some [\<lparr>comment_author_displayName = ''Bob'', comment_body = Some ''foo''\<rparr>]\<rparr>"

definition example_stored :: stored_issue where
  "example_stored = extract_issue_data example_issue"


subsection \<open>Invariants of the merge loop\<close>

text \<open>
  What \<open>load_existing_data\<close> establishes of the dictionary: the keys are distinct and
  each record is filed under its own \<open>key\<close>.
\<close>

definition well_keyed :: "(string \<times> stored_issue) list \<Rightarrow> bool" where
  "well_keyed d \<longleftrightarrow> distinct (map fst d) \<and> (\<forall>(k, issue)\<in>set d. key issue = Some k)"

text \<open>
  What the loop keeps of \<open>updated_issues\<close>: every record has a \<open>key\<close>, and every key
  of the dictionary has exactly one record.
\<close>

definition sync_inv :: "(string \<times> stored_issue) list \<Rightarrow> stored_issue list \<Rightarrow> bool" where
  "sync_inv d upd \<longleftrightarrow>
     (\<forall>issue\<in>set upd. key issue \<noteq> None)
     \<and> (\<forall>k\<in>fst ` set d. length (filter (\<lambda>issue. key issue = Some k) upd) = 1)"

text \<open>
  The example issue with a description of one space, and with a comment whose body
  holds two carriage returns before a line feed.
\<close>

definition blank_issue :: jira_issue where
  "blank_issue = example_issue\<lparr>fields_description := Some '' ''\<rparr>"

definition crlf_issue :: jira_issue where
  "crlf_issue =
     example_issue\<lparr>fields_comment :=
       Some [\<lparr>comment_author_displayName = ''Bob'',
              comment_body = Some [CHR ''a'', CHR 0x0D, CHR 0x0D, CHR 0x0A, CHR ''b'']\<rparr>]\<rparr>"

text \<open>
  A fetched text is stable when cleaning its cleaned form changes nothing; a fetched
  issue is stable when its texts are, and \<open>str\<close> of its resolution cleans to the same
  text as the resolution's name.
\<close>

definition stable_text :: "string option \<Rightarrow> bool" where
  "stable_text x \<longleftrightarrow> clean_text (Some (clean_text x)) = clean_text x"

definition stable_issue :: "jira_issue \<Rightarrow> bool" where
  "stable_issue t \<longleftrightarrow>
     stable_text (fields_summary t)
     \<and> stable_text (fields_description t)
     \<and> stable_text (fields_customfield_12602 t)
     \<and> (\<forall>r. fields_resolution t = Some r \<longrightarrow>
            clean_text (Some (res_str r)) = clean_text (Some (res_name r)))
     \<and> (\<forall>cs. fields_comment t = Some cs \<longrightarrow> (\<forall>c\<in>set cs. stable_text (comment_body c)))"

section \<open>Properties of the text functions\<close>

lemma isspace_simps:
  "isspace (CHR 0x09)" "isspace (CHR 0x0A)" "isspace (CHR 0x0D)" "isspace (CHR 0x20)"
  by (simp_all add: isspace_def whitespace_def)

lemma strip_blank:
  assumes "\<forall>c\<in>set s. isspace c"
  shows "strip s = []"
proof -
  from assms have "dropWhile isspace s = []" by simp
  then show ?thesis
    unfolding strip_def by (simp only: rev.simps dropWhile.simps)
qed

lemma strip_split:
  "dropWhile isspace s = strip s @ rev (takeWhile isspace (rev (dropWhile isspace s)))"
proof -
  define m where "m = dropWhile isspace s"
  have "m = rev (takeWhile isspace (rev m) @ dropWhile isspace (rev m))"
    by (simp only: takeWhile_dropWhile_id rev_rev_ident)
  then have "m = rev (dropWhile isspace (rev m)) @ rev (takeWhile isspace (rev m))"
    by (simp only: rev_append)
  then show ?thesis
    by (simp only: m_def strip_def)
qed

lemma strip_decomp:
  "\<exists>l r. s = l @ strip s @ r \<and> (\<forall>c\<in>set l. isspace c) \<and> (\<forall>c\<in>set r. isspace c)"
proof -
  define l where "l = takeWhile isspace s"
  define r where "r = rev (takeWhile isspace (rev (dropWhile isspace s)))"
  have "s = l @ dropWhile isspace s"
    by (simp add: l_def)
  also have "dropWhile isspace s = strip s @ r"
    unfolding r_def by (rule strip_split)
  finally have "s = l @ strip s @ r" .
  moreover have "\<forall>c\<in>set l. isspace c"
    unfolding l_def by (auto dest: set_takeWhileD)
  moreover have "\<forall>c\<in>set r. isspace c"
    unfolding r_def by (auto dest: set_takeWhileD)
  ultimately show ?thesis by blast
qed

lemma strip_hd:
  assumes "strip s \<noteq> []"
  shows "\<not> isspace (hd (strip s))"
proof -
  have m: "dropWhile isspace s = strip s @ rev (takeWhile isspace (rev (dropWhile isspace s)))"
    by (rule strip_split)
  with assms have "dropWhile isspace s \<noteq> []"
    by (metis append_is_Nil_conv)
  then have "\<not> isspace (hd (dropWhile isspace s))"
    by (rule hd_dropWhile)
  moreover from m assms have "hd (dropWhile isspace s) = hd (strip s)"
    by (metis hd_append2)
  ultimately show ?thesis by simp
qed

lemma strip_last: "strip s \<noteq> [] \<Longrightarrow> \<not> isspace (last (strip s))"
  by (simp add: strip_def last_rev hd_dropWhile)

lemma replace_crlf_append:
  "replace_crlf (a @ CHR 0x0D # CHR 0x0A # b) = replace_crlf a @ CHR 0x0A # replace_crlf b"
  by (induction a rule: replace_crlf.induct) simp_all

lemma replace_crlf_id:
  "\<not> (\<exists>a b. s = a @ CHR 0x0D # CHR 0x0A # b) \<Longrightarrow> replace_crlf s = s"
proof (induction s rule: replace_crlf.induct)
  case (3 c d s)
  have no_head: "\<not> (c = CHR 0x0D \<and> d = CHR 0x0A)"
    using "3.prems" by (metis append_Nil)
  have "\<not> (\<exists>a b. d # s = a @ CHR 0x0D # CHR 0x0A # b)"
    using "3.prems" by (metis append_Cons)
  with no_head "3.IH"(2) show ?case by simp
qed simp_all

lemma replace_crlf_no_lf:
  "CHR 0x0A \<notin> set (replace_crlf s) \<Longrightarrow> replace_crlf s = s"
  by (induction s rule: replace_crlf.induct) (auto split: if_splits)

lemma replace_crlf_Nil: "replace_crlf s = [] \<longleftrightarrow> s = []"
  by (induction s rule: replace_crlf.induct) auto

lemma replace_crlf_hd: "hd s \<noteq> CHR 0x0D \<Longrightarrow> hd (replace_crlf s) = hd s"
  by (induction s rule: replace_crlf.induct) auto

lemma replace_crlf_last: "s \<noteq> [] \<Longrightarrow> last s \<noteq> CHR 0x0A \<Longrightarrow> last (replace_crlf s) = last s"
  by (induction s rule: replace_crlf.induct) (auto simp: replace_crlf_Nil split: if_splits)

lemma replace_tab_no_tab: "CHR 0x09 \<notin> set (replace_tab s)"
  by (auto simp: replace_tab_def)

lemma replace_tab_hd: "s \<noteq> [] \<Longrightarrow> hd s \<noteq> CHR 0x09 \<Longrightarrow> hd (replace_tab s) = hd s"
  by (cases s) (auto simp: replace_tab_def)

lemma replace_tab_last: "s \<noteq> [] \<Longrightarrow> last s \<noteq> CHR 0x09 \<Longrightarrow> last (replace_tab s) = last s"
  by (simp add: replace_tab_def last_map)

lemma replace_tab_lf: "CHR 0x0A \<in> set (replace_tab s) \<longleftrightarrow> CHR 0x0A \<in> set s"
  by (auto simp: replace_tab_def)

lemma tab_char:
  "d \<noteq> CHR 0x20 \<Longrightarrow> ((if c = CHR 0x09 then CHR 0x20 else c) = d) = (c \<noteq> CHR 0x09 \<and> c = d)"
  by auto

lemma tab_char_space:
  "((if c = CHR 0x09 then CHR 0x20 else c) = CHR 0x20) = (c = CHR 0x09 \<or> c = CHR 0x20)"
  by auto

lemma replace_tab_sentinel:
  "replace_tab x = ''No content'' \<longleftrightarrow> x = ''No content'' \<or> x = [CHR ''N'', CHR ''o'', CHR 0x09, CHR ''c'', CHR ''o'', CHR ''n'', CHR ''t'', CHR ''e'', CHR ''n'', CHR ''t'']"
  unfolding replace_tab_def map_eq_Cons_conv
  by (simp add: tab_char tab_char_space del: if_split) blast


lemma sentinel_no_lf: "CHR 0x0A \<notin> set ''No content''"
  by simp

lemma clean_text_sentinel_iff:
  assumes "s \<noteq> []"
  shows "clean_text (Some s) = ''No content'' \<longleftrightarrow>
         strip s = ''No content'' \<or> strip s = [CHR ''N'', CHR ''o'', CHR 0x09, CHR ''c'', CHR ''o'', CHR ''n'', CHR ''t'', CHR ''e'', CHR ''n'', CHR ''t'']"
    (is "?L \<longleftrightarrow> ?R")
proof
  assume ?L
  with assms have eq: "replace_tab (replace_crlf (strip s)) = ''No content''"
    by (simp add: clean_text_def)
  then have "CHR 0x0A \<notin> set (replace_tab (replace_crlf (strip s)))"
    by (simp only: sentinel_no_lf not_False_eq_True)
  then have "CHR 0x0A \<notin> set (replace_crlf (strip s))"
    by (simp only: replace_tab_lf not_False_eq_True)
  then have "replace_crlf (strip s) = strip s"
    by (rule replace_crlf_no_lf)
  with eq have "replace_tab (strip s) = ''No content''" by simp
  then show ?R by (simp only: replace_tab_sentinel)
next
  assume ?R
  then show ?L using assms
    by (auto simp: clean_text_def replace_tab_def)
qed

lemma clean_text_no_tab: "CHR 0x09 \<notin> set (clean_text t)"
  by (auto simp: clean_text_def replace_tab_no_tab split: option.splits)

lemma clean_text_trimmed:
  assumes "clean_text t \<noteq> []"
  shows "\<not> isspace (hd (clean_text t)) \<and> \<not> isspace (last (clean_text t))"
proof (cases "t = None \<or> t = Some []")
  case True
  then have "clean_text t = ''No content''"
    by (auto simp: clean_text_def)
  then show ?thesis
    by (simp add: isspace_def whitespace_def)
next
  case False
  then obtain s where t: "t = Some s" and s: "s \<noteq> []" by auto
  define x where "x = strip s"
  from t s have ct: "clean_text t = replace_tab (replace_crlf x)"
    by (simp add: clean_text_def x_def)
  with assms have x: "x \<noteq> []"
    by (auto simp: replace_tab_def)
  then have h: "\<not> isspace (hd x)" and l: "\<not> isspace (last x)"
    unfolding x_def by (simp_all add: strip_hd strip_last)
  from x have y: "replace_crlf x \<noteq> []"
    by (simp add: replace_crlf_Nil)
  from h have "hd x \<noteq> CHR 0x0D" "hd x \<noteq> CHR 0x09"
    using isspace_simps by auto
  then have "hd (replace_tab (replace_crlf x)) = hd x"
    using y by (simp add: replace_tab_hd replace_crlf_hd)
  moreover from l have "last x \<noteq> CHR 0x0A" "last x \<noteq> CHR 0x09"
    using isspace_simps by auto
  then have "last (replace_tab (replace_crlf x)) = last x"
    using x y by (simp add: replace_tab_last replace_crlf_last)
  ultimately show ?thesis
    using h l ct by simp
qed


lemma clean_text_blank:
  "s \<noteq> [] \<Longrightarrow> \<forall>c\<in>set s. isspace c \<Longrightarrow> clean_text (Some s) = []"
  by (simp add: clean_text_def strip_blank replace_tab_def)

lemma clean_text_sentinel: "clean_text (Some ''No content'') = ''No content''"
  by (simp add: clean_text_def strip_def replace_tab_def isspace_def whitespace_def)

lemma clean_text_sentinel_cases:
  "clean_text t = ''No content'' \<longleftrightarrow>
     t = None \<or> t = Some []
     \<or> (\<exists>u. t = Some u \<and> (strip u = ''No content''
           \<or> strip u = [CHR ''N'', CHR ''o'', CHR 0x09, CHR ''c'', CHR ''o'', CHR ''n'',
                         CHR ''t'', CHR ''e'', CHR ''n'', CHR ''t'']))"
proof (cases t)
  case None
  then show ?thesis by (simp add: clean_text_def)
next
  case (Some u)
  show ?thesis
  proof (cases "u = []")
    case True
    with Some show ?thesis by (simp add: clean_text_def)
  next
    case False
    with Some show ?thesis
      using clean_text_sentinel_iff [OF False] by simp
  qed
qed

section \<open>Properties of the change detection\<close>

lemma is_issue_modified_iff:
  "is_issue_modified e n \<longleftrightarrow>
     safe_compare (summary e) (map_option StrValue (fields_summary n))
   \<or> safe_compare (description e) (map_option StrValue (fields_description n))
   \<or> safe_compare (resolution e) (map_option ResolutionValue (fields_resolution n))
   \<or> safe_compare (root_cause e) (map_option StrValue (fields_customfield_12602 n))
   \<or> comments_modified (case comments e of None \<Rightarrow> [] | Some cs \<Rightarrow> cs)
                         (case fields_comment n of None \<Rightarrow> [] | Some cs \<Rightarrow> cs)"
  by (simp add: is_issue_modified_def comparison_map_def)

lemma safe_compare_sentinel_None:
  "v \<in> {''Unresolved'', ''No root cause provided'', ''No content''} \<Longrightarrow>
   \<not> safe_compare (Some v) None"
  by (auto simp add: safe_compare_def clean_text_sentinel)

lemma safe_compare_None_sentinel:
  "clean_text (Some v) = ''No content'' \<Longrightarrow> \<not> safe_compare None (Some (StrValue v))"
  by (simp add: safe_compare_def)

lemma safe_compare_sentinel_blank:
  "s \<noteq> [] \<Longrightarrow> \<forall>c\<in>set s. isspace c \<Longrightarrow>
   safe_compare (Some ''No content'') (Some (StrValue s))"
  by (simp add: safe_compare_def clean_text_sentinel clean_text_blank)

lemma example_unmodified: "\<not> is_issue_modified example_stored example_issue"
  by code_simp

text \<open>
  C5. Sentinel equivalence. Starting from a stored record and a fetched issue on which
  nothing is flagged (the other compared fields are equal): a stored resolution
  \<open>Unresolved\<close> against no fetched resolution is no modification; a stored root cause
  \<open>No content\<close> against no fetched root cause is no modification; no stored root cause
  against a fetched root cause that \<open>clean_text\<close> maps to \<open>No content\<close> is no
  modification.
\<close>

theorem sentinel_equivalence:
  assumes "\<not> is_issue_modified e n" and "clean_text (Some v) = ''No content''"
  shows "\<not> safe_compare (Some ''Unresolved'') None
       \<and> \<not> safe_compare (Some ''No content'') None
       \<and> \<not> safe_compare None (Some (StrValue v))
       \<and> \<not> is_issue_modified (e\<lparr>resolution := Some ''Unresolved''\<rparr>)
                               (n\<lparr>fields_resolution := None\<rparr>)
       \<and> \<not> is_issue_modified (e\<lparr>root_cause := Some ''No content''\<rparr>)
                               (n\<lparr>fields_customfield_12602 := None\<rparr>)
       \<and> \<not> is_issue_modified (e\<lparr>root_cause := None\<rparr>)
                               (n\<lparr>fields_customfield_12602 := Some v\<rparr>)"
  using assms safe_compare_sentinel_None [of "''Unresolved''"]
    safe_compare_sentinel_None [of "''No content''"] safe_compare_None_sentinel [of v]
  by (simp add: is_issue_modified_iff)

theorem sentinel_equivalence_witness:
  "\<not> is_issue_modified example_stored example_issue
   \<and> clean_text (Some []) = ''No content''
   \<and> \<not> is_issue_modified (example_stored\<lparr>resolution := Some ''Unresolved''\<rparr>)
                           (example_issue\<lparr>fields_resolution := None\<rparr>)
   \<and> \<not> is_issue_modified (example_stored\<lparr>root_cause := Some ''No content''\<rparr>)
                           (example_issue\<lparr>fields_customfield_12602 := None\<rparr>)
   \<and> \<not> is_issue_modified (example_stored\<lparr>root_cause := None\<rparr>)
                           (example_issue\<lparr>fields_customfield_12602 := Some []\<rparr>)"
proof -
  have h1: "\<not> is_issue_modified example_stored example_issue"
    by (rule example_unmodified)
  have h2: "clean_text (Some []) = ''No content''"
    by (simp add: clean_text_def)
  show ?thesis
    using h1 h2 sentinel_equivalence [OF h1 h2] by simp
qed

text \<open>
  C10. The three sentinels on all four fields. A stored value \<open>Unresolved\<close>,
  \<open>No root cause provided\<close> or \<open>No content\<close> against an absent fetched value is never
  flagged by \<open>safe_compare\<close>, and \<open>is_issue_modified\<close> uses \<open>safe_compare\<close> for each of
  summary, description, resolution and root cause: when nothing is flagged on a stored
  record and a fetched issue, nothing is flagged after one of the four stored fields is
  set to a sentinel and the fetched field is made absent.
\<close>

theorem sentinels_on_every_field:
  assumes "v \<in> {''Unresolved'', ''No root cause provided'', ''No content''}"
    and "\<not> is_issue_modified e n"
  shows "\<not> safe_compare (Some v) None
       \<and> \<not> is_issue_modified (e\<lparr>summary := Some v\<rparr>) (n\<lparr>fields_summary := None\<rparr>)
       \<and> \<not> is_issue_modified (e\<lparr>description := Some v\<rparr>) (n\<lparr>fields_description := None\<rparr>)
       \<and> \<not> is_issue_modified (e\<lparr>resolution := Some v\<rparr>) (n\<lparr>fields_resolution := None\<rparr>)
       \<and> \<not> is_issue_modified (e\<lparr>root_cause := Some v\<rparr>)
                               (n\<lparr>fields_customfield_12602 := None\<rparr>)"
  using assms(2) safe_compare_sentinel_None [OF assms(1)]
  by (simp add: is_issue_modified_iff)

theorem sentinels_on_every_field_witness:
  "''No root cause provided'' \<in> {''Unresolved'', ''No root cause provided'', ''No content''}
   \<and> \<not> is_issue_modified example_stored example_issue
   \<and> \<not> safe_compare (Some ''No root cause provided'') None
   \<and> \<not> is_issue_modified (example_stored\<lparr>summary := Some ''No root cause provided''\<rparr>)
                           (example_issue\<lparr>fields_summary := None\<rparr>)
   \<and> \<not> is_issue_modified (example_stored\<lparr>description := Some ''No root cause provided''\<rparr>)
                           (example_issue\<lparr>fields_description := None\<rparr>)"
proof -
  have h1: "''No root cause provided'' \<in> {''Unresolved'', ''No root cause provided'', ''No content''}"
    by simp
  have h2: "\<not> is_issue_modified example_stored example_issue"
    by (rule example_unmodified)
  show ?thesis
    using h1 h2 sentinels_on_every_field [OF h1 h2] by simp
qed

text \<open>
  C9, as stated, fails in one clause: \<open>No content\<close> does not come out only for the
  empty string and the absent value. A text that is neither, \<open>No content\<close> between two
  spaces, is cleaned to \<open>No content\<close> as well.
\<close>

theorem padded_sentinel_counterexample:
  "clean_text (Some '' No content '') = ''No content''
   \<and> Some '' No content '' \<noteq> (None :: string option)
   \<and> Some '' No content '' \<noteq> Some ([] :: string)"
  by (simp add: clean_text_def strip_def replace_tab_def isspace_def whitespace_def)

text \<open>
  C9, amended. A non-empty text of whitespace only is cleaned to the empty string, not
  to \<open>No content\<close>. For every input, \<open>No content\<close> comes out only for the absent value,
  the empty string, or a text that itself trims to \<open>No content\<close> (written with a space
  or with a tab). So a stored \<open>No content\<close> against a fetched text of whitespace only
  is flagged, by \<open>safe_compare\<close> and by \<open>is_issue_modified\<close> on each text field.
\<close>

theorem blank_text_is_not_sentinel:
  assumes "s \<noteq> []" and "\<forall>c\<in>set s. isspace c"
  shows "clean_text (Some s) = []
       \<and> clean_text (Some s) \<noteq> ''No content''
       \<and> (\<forall>t. clean_text t = ''No content'' \<longleftrightarrow>
              t = None \<or> t = Some []
              \<or> (\<exists>u. t = Some u \<and> (strip u = ''No content''
                    \<or> strip u = [CHR ''N'', CHR ''o'', CHR 0x09, CHR ''c'', CHR ''o'', CHR ''n'',
                                  CHR ''t'', CHR ''e'', CHR ''n'', CHR ''t''])))
       \<and> safe_compare (Some ''No content'') (Some (StrValue s))
       \<and> is_issue_modified (e\<lparr>summary := Some ''No content''\<rparr>) (n\<lparr>fields_summary := Some s\<rparr>)
       \<and> is_issue_modified (e\<lparr>description := Some ''No content''\<rparr>)
                             (n\<lparr>fields_description := Some s\<rparr>)
       \<and> is_issue_modified (e\<lparr>root_cause := Some ''No content''\<rparr>)
                             (n\<lparr>fields_customfield_12602 := Some s\<rparr>)"
proof -
  have blank: "clean_text (Some s) = []"
    using assms by (rule clean_text_blank)
  then have differs: "clean_text (Some s) \<noteq> ''No content''"
    by simp
  have only: "\<forall>t. clean_text t = ''No content'' \<longleftrightarrow>
              t = None \<or> t = Some []
              \<or> (\<exists>u. t = Some u \<and> (strip u = ''No content''
                    \<or> strip u = [CHR ''N'', CHR ''o'', CHR 0x09, CHR ''c'', CHR ''o'', CHR ''n'',
                                  CHR ''t'', CHR ''e'', CHR ''n'', CHR ''t'']))"
    using clean_text_sentinel_cases by blast
  have cmp: "safe_compare (Some ''No content'') (Some (StrValue s))"
    using assms by (rule safe_compare_sentinel_blank)
  have m1: "is_issue_modified (e\<lparr>summary := Some ''No content''\<rparr>) (n\<lparr>fields_summary := Some s\<rparr>)"
    and m2: "is_issue_modified (e\<lparr>description := Some ''No content''\<rparr>)
                             (n\<lparr>fields_description := Some s\<rparr>)"
    and m3: "is_issue_modified (e\<lparr>root_cause := Some ''No content''\<rparr>)
                             (n\<lparr>fields_customfield_12602 := Some s\<rparr>)"
    using cmp by (simp_all add: is_issue_modified_iff)
  from blank differs only cmp m1 m2 m3 show ?thesis
    by (intro conjI)
qed

theorem blank_text_is_not_sentinel_witness:
  "'' '' \<noteq> [] \<and> isspace (CHR 0x20)
   \<and> clean_text (Some '' '') = []
   \<and> safe_compare (Some ''No content'') (Some (StrValue '' ''))
   \<and> is_issue_modified (example_stored\<lparr>description := Some ''No content''\<rparr>)
                         (example_issue\<lparr>fields_description := Some '' ''\<rparr>)"
proof -
  have h1: "'' '' \<noteq> []" by simp
  have h2: "\<forall>c\<in>set '' ''. isspace c" by (simp add: isspace_def whitespace_def)
  show ?thesis
    using h1 h2 blank_text_is_not_sentinel [OF h1 h2, of example_stored example_issue]
    by simp
qed

section \<open>Comments and placeholders\<close>

lemma list_ex_zip:
  "length xs = length ys \<Longrightarrow>
   list_ex (\<lambda>(a, b). P a b) (zip xs ys) \<longleftrightarrow> (\<exists>i<length ys. P (xs ! i) (ys ! i))"
  by (auto simp: list_ex_iff set_zip)

lemma comments_modified_iff:
  "comments_modified sc nc \<longleftrightarrow>
     (let ec = filter (\<lambda>c. \<not> is_placeholder c) sc in
        (length ec \<noteq> length nc \<and> (ec \<noteq> [] \<or> nc \<noteq> []))
      \<or> (length ec = length nc
         \<and> (\<exists>i<length nc. clean_text (Some (get_body (ec ! i))) \<noteq> clean_text (comment_body (nc ! i)))))"
  by (auto simp: comments_modified_def Let_def list_ex_zip)

lemma comments_modified_filter:
  "comments_modified sc nc = comments_modified (filter (\<lambda>c. \<not> is_placeholder c) sc) nc"
  by (simp add: comments_modified_def)

lemma comparison_map_comments [simp]:
  "comparison_map (e\<lparr>comments := cs\<rparr>) (n\<lparr>fields_comment := ns\<rparr>) = comparison_map e n"
  by (simp add: comparison_map_def)

lemma example_fields_equal:
  "\<not> list_ex (\<lambda>(x, y). safe_compare x y) (comparison_map example_stored example_issue)"
  by code_simp

text \<open>
  C6. Comment comparison. \<open>is_issue_modified\<close> flags a modification when a field
  comparison flags one or the comment part does. The comment part flags one exactly
  when the count of the stored comments left after the filter differs from the count of
  the fetched comments and one of the two lists is non-empty, or the counts agree and at
  some position the cleaned stored body differs from the cleaned fetched body. Comments
  are matched by position. A stored body \<open>foo\<close> against a fetched body \<open>foo\<close> followed
  by carriage return and line feed flags nothing.
\<close>

theorem comment_comparison:
  "(is_issue_modified e n \<longleftrightarrow>
      list_ex (\<lambda>(x, y). safe_compare x y) (comparison_map e n)
    \<or> comments_modified (case comments e of None \<Rightarrow> [] | Some cs \<Rightarrow> cs)
                          (case fields_comment n of None \<Rightarrow> [] | Some cs \<Rightarrow> cs))
   \<and> (comments_modified sc nc \<longleftrightarrow>
        (let ec = filter (\<lambda>c. \<not> is_placeholder c) sc in
           (length ec \<noteq> length nc \<and> (ec \<noteq> [] \<or> nc \<noteq> []))
         \<or> (length ec = length nc
            \<and> (\<exists>i<length nc. clean_text (Some (get_body (ec ! i)))
                                \<noteq> clean_text (comment_body (nc ! i))))))
   \<and> \<not> comments_modified
          [\<lparr>message = None, author = a, body = Some ''foo''\<rparr>]
          [\<lparr>comment_author_displayName = b,
            comment_body = Some [CHR ''f'', CHR ''o'', CHR ''o'', CHR 0x0D, CHR 0x0A]\<rparr>]"
proof -
  have "clean_text (Some ''foo'') = ''foo''"
    by (simp add: clean_text_def strip_def replace_tab_def isspace_def whitespace_def)
  moreover have "clean_text (Some [CHR ''f'', CHR ''o'', CHR ''o'', CHR 0x0D, CHR 0x0A]) = ''foo''"
    by (simp add: clean_text_def strip_def replace_tab_def isspace_def whitespace_def)
  ultimately have "\<not> comments_modified
          [\<lparr>message = None, author = a, body = Some ''foo''\<rparr>]
          [\<lparr>comment_author_displayName = b,
            comment_body = Some [CHR ''f'', CHR ''o'', CHR ''o'', CHR 0x0D, CHR 0x0A]\<rparr>]"
    by (simp add: comments_modified_def is_placeholder_def get_body_def)
  moreover have "is_issue_modified e n \<longleftrightarrow>
      list_ex (\<lambda>(x, y). safe_compare x y) (comparison_map e n)
    \<or> comments_modified (case comments e of None \<Rightarrow> [] | Some cs \<Rightarrow> cs)
                          (case fields_comment n of None \<Rightarrow> [] | Some cs \<Rightarrow> cs)"
    by (simp add: is_issue_modified_def)
  ultimately show ?thesis
    using comments_modified_iff [of sc nc] by blast
qed

theorem comment_comparison_witness:
  "comments_modified
     [\<lparr>message = None, author = Some ''Bob'', body = Some ''foo''\<rparr>]
     [\<lparr>comment_author_displayName = ''Bob'', comment_body = Some ''foo''\<rparr>,
      \<lparr>comment_author_displayName = ''Eve'', comment_body = Some ''bar''\<rparr>]"
proof -
  define sc where "sc = [\<lparr>message = None, author = Some ''Bob'', body = Some ''foo''\<rparr>]"
  define nc where
    "nc = [\<lparr>comment_author_displayName = ''Bob'', comment_body = Some ''foo''\<rparr>,
           \<lparr>comment_author_displayName = ''Eve'', comment_body = Some ''bar''\<rparr>]"
  note T = comment_comparison [where sc = sc and nc = nc, THEN conjunct2, THEN conjunct1]
  have "length (filter (\<lambda>c. \<not> is_placeholder c) sc) \<noteq> length nc" "nc \<noteq> []"
    by (simp_all add: sc_def nc_def)
  with T have "comments_modified sc nc"
    by (simp add: Let_def)
  then show ?thesis
    unfolding sc_def nc_def .
qed

text \<open>
  C3, as stated, fails: the filter of line 163 reads the field \<open>message\<close>, not \<open>body\<close>.
  A stored comment list holding one entry whose body is the placeholder text is not
  emptied, and with no fetched comment the count check flags a modification, on a
  record that is unmodified with an empty stored comment list.
\<close>

theorem body_placeholder_counterexample:
  "comments_modified
     [\<lparr>message = None, author = None, body = Some ''No comments found for this issue.''\<rparr>] []
   \<and> \<not> is_issue_modified (example_stored\<lparr>comments := Some []\<rparr>)
                           (example_issue\<lparr>fields_comment := Some []\<rparr>)
   \<and> is_issue_modified
       (example_stored\<lparr>comments :=
          Some [\<lparr>message = None, author = None, body = Some ''No comments found for this issue.''\<rparr>]\<rparr>)
       (example_issue\<lparr>fields_comment := Some []\<rparr>)"
  by code_simp

text \<open>
  C3, amended. A stored comment whose field \<open>message\<close> is the placeholder text is
  filtered out before the counts are compared: such an entry anywhere in the stored list
  changes nothing, and a stored list holding only one such entry, against no fetched
  comment, flags nothing (so \<open>is_issue_modified\<close> flags nothing when the field
  comparisons flag nothing).
\<close>

theorem placeholder_filtering:
  assumes "message c = Some ''No comments found for this issue.''"
    and "\<not> list_ex (\<lambda>(x, y). safe_compare x y) (comparison_map e n)"
  shows "comments_modified (xs @ c # ys) nc = comments_modified (xs @ ys) nc
       \<and> \<not> comments_modified [c] []
       \<and> \<not> is_issue_modified (e\<lparr>comments := Some [c]\<rparr>) (n\<lparr>fields_comment := Some []\<rparr>)
       \<and> \<not> is_issue_modified (e\<lparr>comments := Some [c]\<rparr>) (n\<lparr>fields_comment := None\<rparr>)"
  using assms by (simp add: comments_modified_def is_placeholder_def is_issue_modified_def)

theorem placeholder_filtering_witness:
  "message \<lparr>message = Some ''No comments found for this issue.'', author = None, body = None\<rparr>
     = Some ''No comments found for this issue.''
   \<and> \<not> list_ex (\<lambda>(x, y). safe_compare x y) (comparison_map example_stored example_issue)
   \<and> \<not> comments_modified
         [\<lparr>message = Some ''No comments found for this issue.'', author = None, body = None\<rparr>] []
   \<and> \<not> is_issue_modified
         (example_stored\<lparr>comments :=
            Some [\<lparr>message = Some ''No comments found for this issue.'', author = None, body = None\<rparr>]\<rparr>)
         (example_issue\<lparr>fields_comment := Some []\<rparr>)"
proof -
  have h1: "message \<lparr>message = Some ''No comments found for this issue.'', author = None, body = None\<rparr>
     = Some ''No comments found for this issue.''"
    by simp
  have h2: "\<not> list_ex (\<lambda>(x, y). safe_compare x y) (comparison_map example_stored example_issue)"
    by (rule example_fields_equal)
  show ?thesis
    using h1 h2 placeholder_filtering [OF h1 h2, of "[]" "[]" "[]"] by blast
qed


section \<open>The contract of the text cleaning\<close>

text \<open>
  C7, as stated, fails: \<open>clean_text\<close> also returns \<open>No content\<close> on the input
  \<open>No content\<close>, which is neither empty nor absent.
\<close>

theorem sentinel_text_counterexample:
  "clean_text (Some ''No content'') = ''No content''
   \<and> Some ''No content'' \<noteq> (None :: string option)
   \<and> Some ''No content'' \<noteq> Some ('''' :: string)"
  by (simp add: clean_text_sentinel)

text \<open>
  C7, amended. \<open>clean_text\<close> returns \<open>No content\<close> for an absent and for an empty
  input; any other input is trimmed, then every carriage return followed by a line feed
  becomes a line feed, then every tab becomes a space. Trimming removes a run of
  whitespace at each end and leaves a text that neither starts nor ends with
  whitespace. The result holds no tab and neither starts nor ends with whitespace. The
  result is \<open>No content\<close> exactly when the input is absent, empty, or trims to
  \<open>No content\<close> (written with a space or with a tab).
\<close>

theorem clean_text_normalizes:
  "clean_text None = ''No content''
   \<and> clean_text (Some []) = ''No content''
   \<and> (s \<noteq> [] \<longrightarrow> clean_text (Some s) = replace_tab (replace_crlf (strip s)))
   \<and> (\<exists>l r. s = l @ strip s @ r \<and> (\<forall>c\<in>set l. isspace c) \<and> (\<forall>c\<in>set r. isspace c))
   \<and> (strip s \<noteq> [] \<longrightarrow> \<not> isspace (hd (strip s)) \<and> \<not> isspace (last (strip s)))
   \<and> replace_crlf (a @ CHR 0x0D # CHR 0x0A # b) = replace_crlf a @ CHR 0x0A # replace_crlf b
   \<and> (\<not> (\<exists>a b. x = a @ CHR 0x0D # CHR 0x0A # b) \<longrightarrow> replace_crlf x = x)
   \<and> replace_tab x = map (\<lambda>c. if c = CHR 0x09 then CHR 0x20 else c) x
   \<and> CHR 0x09 \<notin> set (clean_text t)
   \<and> (clean_text t \<noteq> [] \<longrightarrow> \<not> isspace (hd (clean_text t)) \<and> \<not> isspace (last (clean_text t)))
   \<and> (clean_text t = ''No content'' \<longleftrightarrow>
        t = None \<or> t = Some []
        \<or> (\<exists>u. t = Some u \<and> (strip u = ''No content''
              \<or> strip u = [CHR ''N'', CHR ''o'', CHR 0x09, CHR ''c'', CHR ''o'', CHR ''n'',
                            CHR ''t'', CHR ''e'', CHR ''n'', CHR ''t''])))"
proof -
  have sentinel: "clean_text t = ''No content'' \<longleftrightarrow>
        t = None \<or> t = Some []
        \<or> (\<exists>u. t = Some u \<and> (strip u = ''No content''
              \<or> strip u = [CHR ''N'', CHR ''o'', CHR 0x09, CHR ''c'', CHR ''o'', CHR ''n'',
                            CHR ''t'', CHR ''e'', CHR ''n'', CHR ''t'']))"
  proof (cases t)
    case None
    then show ?thesis by (simp add: clean_text_def)
  next
    case (Some u)
    show ?thesis
    proof (cases "u = []")
      case True
      with Some show ?thesis by (simp add: clean_text_def)
    next
      case False
      with Some show ?thesis
        using clean_text_sentinel_iff [OF False] by simp
    qed
  qed
  have pipeline: "s \<noteq> [] \<longrightarrow> clean_text (Some s) = replace_tab (replace_crlf (strip s))"
    by (simp add: clean_text_def)
  have ends: "strip s \<noteq> [] \<longrightarrow> \<not> isspace (hd (strip s)) \<and> \<not> isspace (last (strip s))"
    by (simp add: strip_hd strip_last)
  have keep: "\<not> (\<exists>a b. x = a @ CHR 0x0D # CHR 0x0A # b) \<longrightarrow> replace_crlf x = x"
    using replace_crlf_id [of x] by blast
  have trimmed: "clean_text t \<noteq> [] \<longrightarrow> \<not> isspace (hd (clean_text t)) \<and> \<not> isspace (last (clean_text t))"
    using clean_text_trimmed by blast
  have none: "clean_text None = ''No content''" "clean_text (Some []) = ''No content''"
    by (simp_all add: clean_text_def)
  show ?thesis
    using none pipeline strip_decomp [of s] ends replace_crlf_append [of a b] keep
      clean_text_no_tab [of t] trimmed sentinel
    unfolding replace_tab_def
    by (intro conjI) (assumption | rule refl)+
qed


theorem clean_text_normalizes_witness:
  "[CHR 0x20, CHR ''a'', CHR 0x09, CHR ''b'', CHR 0x20] \<noteq> []
   \<and> strip [CHR 0x20, CHR ''a'', CHR 0x09, CHR ''b'', CHR 0x20] = [CHR ''a'', CHR 0x09, CHR ''b'']
   \<and> clean_text (Some [CHR 0x20, CHR ''a'', CHR 0x09, CHR ''b'', CHR 0x20]) = ''a b''
   \<and> \<not> isspace (hd (strip [CHR 0x20, CHR ''a'', CHR 0x09, CHR ''b'', CHR 0x20]))
   \<and> CHR 0x09 \<notin> set (clean_text (Some [CHR 0x20, CHR ''a'', CHR 0x09, CHR ''b'', CHR 0x20]))"
proof -
  define s0 where "s0 = [CHR 0x20, CHR ''a'', CHR 0x09, CHR ''b'', CHR 0x20]"
  have h1: "s0 \<noteq> []"
    by (simp add: s0_def)
  have st: "strip s0 = [CHR ''a'', CHR 0x09, CHR ''b'']"
    by (simp add: s0_def strip_def isspace_def whitespace_def)
  then have h2: "strip s0 \<noteq> []"
    by simp
  note T = clean_text_normalizes [where s = s0 and t = "Some s0" and x = "[]" and a = "[]" and b = "[]"]
  from T h1 have c1: "clean_text (Some s0) = replace_tab (replace_crlf (strip s0))"
    by blast
  from T h2 have c2: "\<not> isspace (hd (strip s0))"
    by blast
  from T have c3: "CHR 0x09 \<notin> set (clean_text (Some s0))"
    by blast
  from c1 st have v: "clean_text (Some s0) = ''a b''"
    by (simp add: replace_tab_def)
  show ?thesis
    using h1 st v c2 c3 unfolding s0_def by blast
qed

section \<open>Properties of the merge\<close>

lemma sync_inv_keys: "sync_inv d upd \<Longrightarrow> issue \<in> set upd \<Longrightarrow> key issue \<noteq> None"
  unfolding sync_inv_def by blast

lemma sync_inv_count:
  "sync_inv d upd \<Longrightarrow> k \<in> fst ` set d \<Longrightarrow>
   length (filter (\<lambda>issue. key issue = Some k) upd) = 1"
  unfolding sync_inv_def by blast

lemma set_update_subset: "set (AList.update k v d) \<subseteq> insert (k, v) (set d)"
  by (induction d) auto

lemma well_keyed_update:
  "well_keyed d \<Longrightarrow> key issue = Some k \<Longrightarrow> well_keyed (AList.update k issue d)"
  unfolding well_keyed_def using set_update_subset [of k issue d]
  by (auto simp: distinct_update)

lemma dict_by_key_well_keyed:
  "well_keyed d \<Longrightarrow> dict_by_key recs d = Inr d' \<Longrightarrow> well_keyed d'"
proof (induction recs arbitrary: d)
  case Nil
  then show ?case by simp
next
  case (Cons issue rest)
  then show ?case
    by (auto split: option.splits dest: well_keyed_update)
qed

lemma dict_by_key_total:
  "(\<exists>d'. dict_by_key recs d = Inr d') \<longleftrightarrow> (\<forall>issue\<in>set recs. key issue \<noteq> None)"
  by (induction recs arbitrary: d) (auto split: option.splits)

lemma load_existing_data_well_keyed:
  "load_existing_data output_file = Inr d \<Longrightarrow> well_keyed d"
proof (cases output_file)
  case None
  assume "load_existing_data output_file = Inr d"
  with None show ?thesis by (simp add: load_existing_data_def well_keyed_def)
next
  case (Some recs)
  assume "load_existing_data output_file = Inr d"
  with Some have "dict_by_key recs [] = Inr d" by (simp add: load_existing_data_def)
  moreover have "well_keyed []" by (simp add: well_keyed_def)
  ultimately show ?thesis by (rule dict_by_key_well_keyed [rotated])
qed

lemma remove_key_filter:
  "\<forall>issue\<in>set upd. key issue \<noteq> None \<Longrightarrow>
   remove_key k upd = Inr (filter (\<lambda>issue. key issue \<noteq> Some k) upd)"
  by (induction upd) auto

lemma well_keyed_filter:
  "well_keyed d \<Longrightarrow> (k, v) \<in> set d \<Longrightarrow>
   filter (\<lambda>issue. key issue = Some k) (map snd d) = [v]"
proof (induction d)
  case Nil
  then show ?case by simp
next
  case (Cons p d)
  obtain k' v' where p: "p = (k', v')" by (cases p)
  from Cons.prems(1) have wk: "well_keyed d" and kv: "key v' = Some k'"
    and fresh: "k' \<notin> fst ` set d" and keys: "\<forall>(a, b)\<in>set d. key b = Some a"
    by (auto simp: well_keyed_def p)
  show ?case
  proof (cases "k = k'")
    case True
    with Cons.prems(2) fresh p have "v = v'" by force
    moreover have "filter (\<lambda>issue. key issue = Some k') (map snd d) = []"
      using fresh keys by (auto simp: filter_empty_conv) force
    ultimately show ?thesis
      using True kv p by simp
  next
    case False
    with Cons.prems(2) p have "(k, v) \<in> set d" by auto
    with Cons.IH wk have "filter (\<lambda>issue. key issue = Some k) (map snd d) = [v]" by simp
    with False kv p show ?thesis by simp
  qed
qed

lemma sync_inv_init: "well_keyed d \<Longrightarrow> sync_inv d (map snd d)"
  unfolding sync_inv_def
proof (intro conjI ballI)
  fix issue assume "well_keyed d" "issue \<in> set (map snd d)"
  then show "key issue \<noteq> None" by (auto simp: well_keyed_def)
next
  fix k assume wk: "well_keyed d" and "k \<in> fst ` set d"
  then obtain v where "(k, v) \<in> set d" by auto
  with wk have "filter (\<lambda>issue. key issue = Some k) (map snd d) = [v]"
    by (rule well_keyed_filter)
  then show "length (filter (\<lambda>issue. key issue = Some k) (map snd d)) = 1" by simp
qed

lemma key_extract [simp]: "key (extract_issue_data t) = Some (issue_key t)"
  by (simp add: extract_issue_data_def)

lemma length_remove_one:
  assumes "length (filter (\<lambda>issue. key issue = Some k) upd) = 1"
  shows "length (filter (\<lambda>issue. key issue \<noteq> Some k) upd) + 1 = length upd"
  using assms sum_length_filter_compl [of "\<lambda>issue. key issue = Some k" upd] by simp

lemma process_issue_step:
  assumes inv: "sync_inv d (updated_issues st)"
  shows "\<exists>st'. process_issue d t st = Inr st'
           \<and> sync_inv d (updated_issues st')
           \<and> length (updated_issues st) \<le> length (updated_issues st')
           \<and> filter (\<lambda>issue. key issue \<noteq> Some (issue_key t)) (updated_issues st')
               = filter (\<lambda>issue. key issue \<noteq> Some (issue_key t)) (updated_issues st)"
proof (cases "map_of d (issue_key t)")
  case None
  then have notin: "issue_key t \<notin> fst ` set d"
    by (simp add: map_of_eq_None_iff)
  define st' where "st' = \<lparr>updated_issues = updated_issues st @ [extract_issue_data t],
                            change_log = change_log st @ [Added (issue_key t)]\<rparr>"
  from None have "process_issue d t st = Inr st'"
    by (simp add: process_issue_def st'_def)
  moreover have "sync_inv d (updated_issues st')"
    using inv notin by (auto simp: sync_inv_def st'_def)
  moreover have "length (updated_issues st) \<le> length (updated_issues st')"
    by (simp add: st'_def)
  moreover have "filter (\<lambda>issue. key issue \<noteq> Some (issue_key t)) (updated_issues st')
               = filter (\<lambda>issue. key issue \<noteq> Some (issue_key t)) (updated_issues st)"
    by (simp add: st'_def)
  ultimately show ?thesis by blast
next
  case (Some ex)
  then have isin: "issue_key t \<in> fst ` set d"
    by (metis map_of_eq_None_iff option.distinct(1))
  show ?thesis
  proof (cases "is_issue_modified ex t")
    case False
    with Some have "process_issue d t st = Inr st"
      by (simp add: process_issue_def)
    with inv show ?thesis by simp
  next
    case True
    define r where "r = filter (\<lambda>issue. key issue \<noteq> Some (issue_key t)) (updated_issues st)"
    define st' where "st' = \<lparr>updated_issues = r @ [extract_issue_data t],
                              change_log = change_log st @ [Updated (issue_key t)]\<rparr>"
    from inv have keys: "\<forall>issue\<in>set (updated_issues st). key issue \<noteq> None"
      unfolding sync_inv_def by blast
    then have "remove_key (issue_key t) (updated_issues st) = Inr r"
      unfolding r_def by (rule remove_key_filter)
    with Some True have "process_issue d t st = Inr st'"
      by (simp add: process_issue_def st'_def)
    moreover have "sync_inv d (updated_issues st')"
      unfolding sync_inv_def
    proof (intro conjI ballI)
      fix issue assume "issue \<in> set (updated_issues st')"
      with keys show "key issue \<noteq> None" by (auto simp: st'_def r_def)
    next
      fix k assume k: "k \<in> fst ` set d"
      with inv have one: "length (filter (\<lambda>issue. key issue = Some k) (updated_issues st)) = 1"
        by (rule sync_inv_count)
      show "length (filter (\<lambda>issue. key issue = Some k) (updated_issues st')) = 1"
      proof (cases "k = issue_key t")
        case True
        then have "filter (\<lambda>issue. key issue = Some k) r = []"
          by (auto simp: r_def filter_empty_conv)
        with True show ?thesis by (simp add: st'_def)
      next
        case False
        then have "filter (\<lambda>issue. key issue = Some k) r
                   = filter (\<lambda>issue. key issue = Some k) (updated_issues st)"
          unfolding r_def by (auto intro: filter_cong)
        with False one show ?thesis by (simp add: st'_def)
      qed
    qed
    moreover have "length (updated_issues st) \<le> length (updated_issues st')"
    proof -
      from inv isin have "length (filter (\<lambda>issue. key issue = Some (issue_key t)) (updated_issues st)) = 1"
        by (rule sync_inv_count)
      then have "length r + 1 = length (updated_issues st)"
        unfolding r_def by (rule length_remove_one)
      then show ?thesis by (simp add: st'_def)
    qed
    moreover have "filter (\<lambda>issue. key issue \<noteq> Some (issue_key t)) (updated_issues st')
               = filter (\<lambda>issue. key issue \<noteq> Some (issue_key t)) (updated_issues st)"
      by (simp add: st'_def r_def)
    ultimately show ?thesis by blast
  qed
qed

lemma process_issues_run:
  assumes "sync_inv d (updated_issues st)"
  shows "\<exists>st'. process_issues d ts st = Inr st'
           \<and> sync_inv d (updated_issues st')
           \<and> length (updated_issues st) \<le> length (updated_issues st')
           \<and> filter (\<lambda>issue. key issue \<notin> Some ` issue_key ` set ts) (updated_issues st')
               = filter (\<lambda>issue. key issue \<notin> Some ` issue_key ` set ts) (updated_issues st)"
  using assms
proof (induction ts arbitrary: st)
  case Nil
  then show ?case by simp
next
  case (Cons t ts)
  from process_issue_step [OF Cons.prems, of t]
  obtain st1 where s1: "process_issue d t st = Inr st1"
    and i1: "sync_inv d (updated_issues st1)"
    and l1: "length (updated_issues st) \<le> length (updated_issues st1)"
    and f1: "filter (\<lambda>issue. key issue \<noteq> Some (issue_key t)) (updated_issues st1)
               = filter (\<lambda>issue. key issue \<noteq> Some (issue_key t)) (updated_issues st)"
    by blast
  from Cons.IH [OF i1]
  obtain st2 where s2: "process_issues d ts st1 = Inr st2"
    and i2: "sync_inv d (updated_issues st2)"
    and l2: "length (updated_issues st1) \<le> length (updated_issues st2)"
    and f2: "filter (\<lambda>issue. key issue \<notin> Some ` issue_key ` set ts) (updated_issues st2)
               = filter (\<lambda>issue. key issue \<notin> Some ` issue_key ` set ts) (updated_issues st1)"
    by blast
  let ?P = "\<lambda>issue. key issue \<notin> Some ` issue_key ` set (t # ts)"
  let ?Q = "\<lambda>issue. key issue \<notin> Some ` issue_key ` set ts"
  let ?R = "\<lambda>issue. key issue \<noteq> Some (issue_key t)"
  have split: "filter ?P xs = filter ?R (filter ?Q xs)" for xs
    by (auto simp: filter_filter intro: filter_cong)
  have comm: "filter ?R (filter ?Q xs) = filter ?Q (filter ?R xs)" for xs
    by (auto simp: filter_filter intro: filter_cong)
  have "filter ?P (updated_issues st2) = filter ?R (filter ?Q (updated_issues st2))"
    by (rule split)
  also have "\<dots> = filter ?R (filter ?Q (updated_issues st1))"
    by (simp only: f2)
  also have "\<dots> = filter ?Q (filter ?R (updated_issues st1))"
    by (rule comm)
  also have "\<dots> = filter ?Q (filter ?R (updated_issues st))"
    by (simp only: f1)
  also have "\<dots> = filter ?P (updated_issues st)"
    by (simp only: comm [symmetric] split [symmetric])
  finally have "filter ?P (updated_issues st2) = filter ?P (updated_issues st)" .
  moreover from s1 s2 have "process_issues d (t # ts) st = Inr st2" by simp
  moreover from l1 l2 have "length (updated_issues st) \<le> length (updated_issues st2)" by simp
  ultimately show ?case using i2 by blast
qed


text \<open>
  The three cases of one loop step: a key not in the dictionary is appended and logged
  as added; a key in the dictionary whose issue is modified replaces the records with
  that key and is logged as updated; otherwise nothing changes.
\<close>

lemma process_issue_cases:
  "map_of d (issue_key t) = None \<Longrightarrow>
     process_issue d t st =
       Inr \<lparr>updated_issues = updated_issues st @ [extract_issue_data t],
            change_log = change_log st @ [Added (issue_key t)]\<rparr>"
  "map_of d (issue_key t) = Some ex \<Longrightarrow> \<not> is_issue_modified ex t \<Longrightarrow>
     process_issue d t st = Inr st"
  "map_of d (issue_key t) = Some ex \<Longrightarrow> is_issue_modified ex t \<Longrightarrow>
   sync_inv d (updated_issues st) \<Longrightarrow>
     process_issue d t st =
       Inr \<lparr>updated_issues =
              filter (\<lambda>issue. key issue \<noteq> Some (issue_key t)) (updated_issues st)
                @ [extract_issue_data t],
            change_log = change_log st @ [Updated (issue_key t)]\<rparr>"
proof -
  show "map_of d (issue_key t) = None \<Longrightarrow>
     process_issue d t st =
       Inr \<lparr>updated_issues = updated_issues st @ [extract_issue_data t],
            change_log = change_log st @ [Added (issue_key t)]\<rparr>"
    by (simp add: process_issue_def)
  show "map_of d (issue_key t) = Some ex \<Longrightarrow> \<not> is_issue_modified ex t \<Longrightarrow>
     process_issue d t st = Inr st"
    by (simp add: process_issue_def)
  assume a: "map_of d (issue_key t) = Some ex" "is_issue_modified ex t"
    and inv: "sync_inv d (updated_issues st)"
  from inv have "\<forall>issue\<in>set (updated_issues st). key issue \<noteq> None"
    unfolding sync_inv_def by blast
  then have "remove_key (issue_key t) (updated_issues st)
        = Inr (filter (\<lambda>issue. key issue \<noteq> Some (issue_key t)) (updated_issues st))"
    by (rule remove_key_filter)
  with a show "process_issue d t st =
       Inr \<lparr>updated_issues =
              filter (\<lambda>issue. key issue \<noteq> Some (issue_key t)) (updated_issues st)
                @ [extract_issue_data t],
            change_log = change_log st @ [Updated (issue_key t)]\<rparr>"
    by (simp add: process_issue_def)
qed

text \<open>
  C8. Monotonic growth. For every stored collection that loads and every run over it
  that returns: the list the run writes holds at least as many records as the loaded
  collection has keys, and every stored record whose key is not among the fetched
  issues is in that list, unchanged and as the only record with its key.
\<close>

theorem merge_never_deletes:
  assumes "load_existing_data output_file = Inr existing_issues"
    and "sync_jira_issues output_file batches = Inr st"
  shows "length existing_issues \<le> length (updated_issues st)
       \<and> (\<forall>(k, issue)\<in>set existing_issues.
             k \<notin> issue_key ` set (concat batches) \<longrightarrow>
               issue \<in> set (updated_issues st)
               \<and> filter (\<lambda>i. key i = Some k) (updated_issues st) = [issue])"
proof -
  let ?ts = "concat batches"
  let ?st0 = "\<lparr>updated_issues = map snd existing_issues, change_log = []\<rparr>"
  let ?P = "\<lambda>issue. key issue \<notin> Some ` issue_key ` set ?ts"
  from assms(1) have wk: "well_keyed existing_issues"
    by (rule load_existing_data_well_keyed)
  then have "sync_inv existing_issues (updated_issues ?st0)"
    by (simp add: sync_inv_init)
  from process_issues_run [OF this, of ?ts]
  obtain st' where run: "process_issues existing_issues ?ts ?st0 = Inr st'"
    and len': "length (updated_issues ?st0) \<le> length (updated_issues st')"
    and frame': "filter ?P (updated_issues st') = filter ?P (updated_issues ?st0)"
    by blast
  from assms run have same: "st' = st"
    by (simp add: sync_jira_issues_def)
  from len' same have len: "length existing_issues \<le> length (updated_issues st)"
    by simp
  from frame' same have frame: "filter ?P (updated_issues st) = filter ?P (updated_issues ?st0)"
    by simp
  have "issue \<in> set (updated_issues st)
                 \<and> filter (\<lambda>i. key i = Some k) (updated_issues st) = [issue]"
    if "(k, issue) \<in> set existing_issues" and "k \<notin> issue_key ` set ?ts" for k issue
  proof -
    have imp: "?P i" if "key i = Some k" for i
      using that \<open>k \<notin> issue_key ` set ?ts\<close> by force
    have sel: "filter (\<lambda>i. key i = Some k) xs = filter (\<lambda>i. key i = Some k) (filter ?P xs)" for xs
      unfolding filter_filter by (rule filter_cong [OF refl]) (use imp in blast)
    have "filter (\<lambda>i. key i = Some k) (updated_issues st)
          = filter (\<lambda>i. key i = Some k) (filter ?P (updated_issues st))"
      by (rule sel)
    also have "\<dots> = filter (\<lambda>i. key i = Some k) (filter ?P (updated_issues ?st0))"
      by (simp only: frame)
    also have "\<dots> = filter (\<lambda>i. key i = Some k) (updated_issues ?st0)"
      by (rule sel [symmetric])
    also have "\<dots> = [issue]"
      using well_keyed_filter [OF wk that(1)] by simp
    finally have one: "filter (\<lambda>i. key i = Some k) (updated_issues st) = [issue]" .
    have "issue \<in> set (filter (\<lambda>i. key i = Some k) (updated_issues st))"
      unfolding one by simp
    then have "issue \<in> set (updated_issues st)"
      by simp
    with one show ?thesis by simp
  qed
  with len show ?thesis by blast
qed

theorem merge_never_deletes_witness:
  "load_existing_data (Some [example_stored, example_stored\<lparr>key := Some ''PROJ-2''\<rparr>])
     = Inr [(''PROJ-1'', example_stored), (''PROJ-2'', example_stored\<lparr>key := Some ''PROJ-2''\<rparr>)]
   \<and> sync_jira_issues (Some [example_stored, example_stored\<lparr>key := Some ''PROJ-2''\<rparr>])
         [[blank_issue]]
     = Inr \<lparr>updated_issues = [example_stored\<lparr>key := Some ''PROJ-2''\<rparr>,
                               extract_issue_data blank_issue],
            change_log = [Updated ''PROJ-1'']\<rparr>
   \<and> (2 :: nat) \<le> length [example_stored\<lparr>key := Some ''PROJ-2''\<rparr>,
                             extract_issue_data blank_issue]
   \<and> example_stored\<lparr>key := Some ''PROJ-2''\<rparr>
        \<in> set [example_stored\<lparr>key := Some ''PROJ-2''\<rparr>, extract_issue_data blank_issue]"
proof -
  let ?f = "Some [example_stored, example_stored\<lparr>key := Some ''PROJ-2''\<rparr>]"
  let ?d = "[(''PROJ-1'', example_stored), (''PROJ-2'', example_stored\<lparr>key := Some ''PROJ-2''\<rparr>)]"
  let ?st = "\<lparr>updated_issues = [example_stored\<lparr>key := Some ''PROJ-2''\<rparr>,
                               extract_issue_data blank_issue],
            change_log = [Updated ''PROJ-1'']\<rparr>"
  have h1: "load_existing_data ?f = Inr ?d"
    by code_simp
  have h2: "sync_jira_issues ?f [[blank_issue]] = Inr ?st"
    by code_simp
  have k: "''PROJ-2'' \<notin> issue_key ` set (concat [[blank_issue]])"
    by (simp add: blank_issue_def example_issue_def)
  from merge_never_deletes [OF h1 h2]
  have len: "length ?d \<le> length (updated_issues ?st)"
    and frame: "\<forall>(k, issue)\<in>set ?d. k \<notin> issue_key ` set (concat [[blank_issue]]) \<longrightarrow>
                   issue \<in> set (updated_issues ?st)
                   \<and> filter (\<lambda>i. key i = Some k) (updated_issues ?st) = [issue]"
    by blast+
  from len have l: "(2 :: nat) \<le> length [example_stored\<lparr>key := Some ''PROJ-2''\<rparr>,
                             extract_issue_data blank_issue]"
    by simp
  from frame k have m: "example_stored\<lparr>key := Some ''PROJ-2''\<rparr>
        \<in> set [example_stored\<lparr>key := Some ''PROJ-2''\<rparr>, extract_issue_data blank_issue]"
    by auto
  from h1 h2 l m show ?thesis
    by (intro conjI)
qed

text \<open>
  C2, as stated, fails: the dictionary comprehension of line 57 reads \<open>issue['key']\<close>
  with no guard, so a stored record without \<open>key\<close> raises \<open>KeyError\<close> and the run
  ends there.
\<close>

theorem missing_key_counterexample:
  "sync_jira_issues (Some [example_stored, example_stored\<lparr>key := None\<rparr>]) [[example_issue]]
     = Inl KeyError"
  by code_simp

text \<open>
  C2, amended. A stored record without \<open>key\<close> is not skipped: loading raises
  \<open>KeyError\<close> exactly when the output file exists and holds such a record, and the run
  then ends with that error, before any issue is compared and before anything is
  written.
\<close>

theorem missing_key_aborts_run:
  "(load_existing_data output_file = Inl KeyError \<longleftrightarrow>
      (\<exists>existing_data. output_file = Some existing_data
         \<and> (\<exists>issue\<in>set existing_data. key issue = None)))
   \<and> ((\<exists>existing_data. output_file = Some existing_data
         \<and> (\<exists>issue\<in>set existing_data. key issue = None)) \<longrightarrow>
      sync_jira_issues output_file batches = Inl KeyError)"
proof -
  let ?bad = "\<exists>existing_data. output_file = Some existing_data
         \<and> (\<exists>issue\<in>set existing_data. key issue = None)"
  have load: "load_existing_data output_file = Inl KeyError \<longleftrightarrow> ?bad"
  proof (cases output_file)
    case None
    then show ?thesis by (simp add: load_existing_data_def)
  next
    case (Some recs)
    have "(\<exists>d'. dict_by_key recs [] = Inr d') \<longleftrightarrow> (\<forall>issue\<in>set recs. key issue \<noteq> None)"
      by (rule dict_by_key_total)
    moreover have "dict_by_key recs [] = Inl KeyError \<longleftrightarrow> \<not> (\<exists>d'. dict_by_key recs [] = Inr d')"
      by (cases "dict_by_key recs []") (auto intro: error.exhaust)
    ultimately show ?thesis
      using Some by (auto simp: load_existing_data_def)
  qed
  have sync: "?bad \<longrightarrow> sync_jira_issues output_file batches = Inl KeyError"
  proof
    assume ?bad
    with load have "load_existing_data output_file = Inl KeyError"
      by simp
    then show "sync_jira_issues output_file batches = Inl KeyError"
      by (simp add: sync_jira_issues_def)
  qed
  from load sync show ?thesis by blast
qed

theorem missing_key_aborts_run_witness:
  "key (example_stored\<lparr>key := None\<rparr>) = None
   \<and> load_existing_data (Some [example_stored\<lparr>key := None\<rparr>]) = Inl KeyError
   \<and> sync_jira_issues (Some [example_stored\<lparr>key := None\<rparr>]) [[example_issue]] = Inl KeyError
   \<and> load_existing_data (Some [example_stored]) \<noteq> Inl KeyError"
proof -
  let ?bad = "example_stored\<lparr>key := None\<rparr>"
  have h: "key ?bad = None"
    by simp
  then have b: "\<exists>existing_data. Some [?bad] = Some existing_data
                  \<and> (\<exists>issue\<in>set existing_data. key issue = None)"
    by simp
  have g: "\<not> (\<exists>existing_data. Some [example_stored] = Some existing_data
                  \<and> (\<exists>issue\<in>set existing_data. key issue = None))"
    by (simp add: example_stored_def)
  from b missing_key_aborts_run [of "Some [?bad]" "[[example_issue]]"]
  have "load_existing_data (Some [?bad]) = Inl KeyError"
    and "sync_jira_issues (Some [?bad]) [[example_issue]] = Inl KeyError"
    by blast+
  moreover from g missing_key_aborts_run [of "Some [example_stored]" "[]"]
  have "load_existing_data (Some [example_stored]) \<noteq> Inl KeyError"
    by blast
  ultimately show ?thesis
    using h by blast
qed


section \<open>Repeated runs and repeated deliveries\<close>

lemma safe_compare_stable_text:
  "stable_text x \<Longrightarrow> \<not> safe_compare (Some (clean_text x)) (map_option StrValue x)"
  by (cases x) (auto simp: safe_compare_def stable_text_def clean_text_def)

lemma safe_compare_stable_custom:
  assumes "stable_text x"
  shows "\<not> safe_compare (get_custom_field_value x) (map_option StrValue x)"
proof (cases x)
  case None
  then show ?thesis
    by (simp add: get_custom_field_value_def safe_compare_def)
next
  case (Some a)
  show ?thesis
  proof (cases "a = []")
    case True
    with Some show ?thesis
      by (simp add: get_custom_field_value_def safe_compare_def clean_text_def)
  next
    case False
    with Some have "get_custom_field_value x = Some (clean_text x)"
      by (simp add: get_custom_field_value_def)
    with assms show ?thesis
      by (simp add: safe_compare_stable_text)
  qed
qed

lemma comments_unmodified_stable:
  assumes "\<forall>c\<in>set cs. stable_text (comment_body c)"
  shows "\<not> comments_modified (map extract_comment cs) cs"
proof -
  have keep: "filter (\<lambda>c. \<not> is_placeholder c) (map extract_comment cs) = map extract_comment cs"
    by (simp add: is_placeholder_def extract_comment_def)
  have "\<not> list_ex (\<lambda>(old_comment, new_comment).
            clean_text (Some (get_body old_comment)) \<noteq> clean_text (comment_body new_comment))
          (zip (map extract_comment cs) cs)"
    using assms
    by (auto simp: list_ex_iff zip_map1 zip_same_conv_map get_body_def extract_comment_def stable_text_def)
  then show ?thesis
    unfolding comments_modified_def keep by (simp add: Let_def)
qed

lemma unmodified_when_stable:
  assumes "stable_issue t"
  shows "\<not> is_issue_modified (extract_issue_data t) t"
proof -
  from assms have 1: "\<not> safe_compare (Some (clean_text (fields_summary t))) (map_option StrValue (fields_summary t))"
    and 2: "\<not> safe_compare (Some (clean_text (fields_description t))) (map_option StrValue (fields_description t))"
    and 4: "\<not> safe_compare (get_custom_field_value (fields_customfield_12602 t)) (map_option StrValue (fields_customfield_12602 t))"
    by (simp_all add: stable_issue_def safe_compare_stable_text safe_compare_stable_custom)
  from assms have 3: "\<not> safe_compare (map_option res_name (fields_resolution t))
          (map_option ResolutionValue (fields_resolution t))"
    by (cases "fields_resolution t") (auto simp: stable_issue_def safe_compare_def)
  from assms have 5: "\<not> comments_modified
          (case fields_comment t of None \<Rightarrow> [] | Some cs \<Rightarrow> map extract_comment cs)
          (case fields_comment t of None \<Rightarrow> [] | Some cs \<Rightarrow> cs)"
  proof (cases "fields_comment t")
    case None
    then show ?thesis by (simp add: comments_modified_def)
  next
    case (Some cs)
    with assms have "\<forall>c\<in>set cs. stable_text (comment_body c)"
      by (simp add: stable_issue_def)
    then have "\<not> comments_modified (map extract_comment cs) cs"
      by (rule comments_unmodified_stable)
    with Some show ?thesis by simp
  qed
  from 1 2 3 4 5 show ?thesis
    by (simp add: is_issue_modified_iff extract_issue_data_def)
qed

text \<open>
  Where idempotence does hold: when every fetched issue is stable and the dictionary
  holds its extracted record, the run returns the stored records and an empty log.
\<close>

lemma process_issues_idle:
  assumes "\<forall>t\<in>set ts. stable_issue t \<and> map_of d (issue_key t) = Some (extract_issue_data t)"
  shows "process_issues d ts st = Inr st"
  using assms
proof (induction ts)
  case Nil
  then show ?case by simp
next
  case (Cons t ts)
  then have "stable_issue t" and look: "map_of d (issue_key t) = Some (extract_issue_data t)"
    by simp_all
  then have "\<not> is_issue_modified (extract_issue_data t) t"
    by (simp add: unmodified_when_stable)
  with look have "process_issue d t st = Inr st"
    by (rule process_issue_cases(2))
  with Cons show ?case by simp
qed

lemma idempotent_when_stable:
  assumes "load_existing_data output_file = Inr d"
    and "\<forall>t\<in>set (concat batches). stable_issue t \<and> map_of d (issue_key t) = Some (extract_issue_data t)"
  shows "sync_jira_issues output_file batches = Inr \<lparr>updated_issues = map snd d, change_log = []\<rparr>"
  using assms by (simp add: sync_jira_issues_def process_issues_idle)

text \<open>
  C1. Idempotence fails on a fetched issue whose description is one space. The stored
  collection holds exactly the record extracted from that issue, with the description
  cleaned to the empty string. \<open>safe_compare\<close> cleans the stored value once more, to
  \<open>No content\<close>, and the fetched value to the empty string, so the run logs an update.
  It fails as well on a comment body with two carriage returns before a line feed:
  cleaning turns them into one carriage return and a line feed, and cleaning the stored
  body once more into a line feed alone.
\<close>

theorem idempotence_phantom_update:
  "sync_jira_issues (Some [extract_issue_data blank_issue]) [[blank_issue]]
     = Inr \<lparr>updated_issues = [extract_issue_data blank_issue],
            change_log = [Updated ''PROJ-1'']\<rparr>
   \<and> sync_jira_issues (Some [extract_issue_data crlf_issue]) [[crlf_issue]]
     = Inr \<lparr>updated_issues = [extract_issue_data crlf_issue],
            change_log = [Updated ''PROJ-1'']\<rparr>"
  by code_simp

text \<open>
  C4. A new key delivered twice, in one page or in two, is added twice: the loop tests
  the key against the dictionary loaded at the start, which it never updates. The list
  written holds two records with the same key and the log two \<open>Added\<close> events.
\<close>

theorem new_key_delivered_twice:
  "sync_jira_issues None [[example_issue, example_issue]]
     = Inr \<lparr>updated_issues = [example_stored, example_stored],
            change_log = [Added ''PROJ-1'', Added ''PROJ-1'']\<rparr>
   \<and> sync_jira_issues None [[example_issue], [example_issue]]
     = Inr \<lparr>updated_issues = [example_stored, example_stored],
            change_log = [Added ''PROJ-1'', Added ''PROJ-1'']\<rparr>
   \<and> key example_stored = Some ''PROJ-1''"
  by code_simp

end
